theory Spec2Isabelle
  imports Main
begin

section \<open>JavaScript values seen by the login form\<close>

text \<open>
  The component of \<^verbatim>\<open>Login.jsx\<close> handles three kinds of JavaScript values: the parsed
  JSON body of the HTTP response, the \<^verbatim>\<open>Error\<close> instances a promise rejects with, and
  \<^verbatim>\<open>undefined\<close>, the result of reading a property that is absent.

  The component never computes with a number. A number is carried as the two
  observations JavaScript makes of it here: its truthiness (\<^verbatim>\<open>ToBoolean\<close>) and its
  text (\<^verbatim>\<open>ToString\<close>). An \<^verbatim>\<open>Error\<close> instance is carried as its name and its message.
  Strings are sequences of 8-bit characters.
\<close>

datatype jsval =
    Undefined
  | Null
  | Bool bool
  | Num bool string
  | Str string
  | Arr "jsval list"
  | Obj "(string \<times> jsval) list"
  | Exn string string

text \<open>\<^verbatim>\<open>ToBoolean\<close>: the test of \<^verbatim>\<open>v ? a : b\<close>.\<close>

fun truthy :: "jsval \<Rightarrow> bool" where
  "truthy Undefined = False"
| "truthy Null = False"
| "truthy (Bool b) = b"
| "truthy (Num nonzero txt) = nonzero"
| "truthy (Str s) = (s \<noteq> [])"
| "truthy (Arr vs) = True"
| "truthy (Obj kvs) = True"
| "truthy (Exn name msg) = True"

text \<open>
  A property read \<^verbatim>\<open>v.k\<close>. Reading a property of \<^verbatim>\<open>null\<close> or \<^verbatim>\<open>undefined\<close> throws a
  \<^verbatim>\<open>TypeError\<close> (\<open>Inl\<close>, with the error thrown). Only own properties are looked up:
  the component reads \<^verbatim>\<open>token\<close> and \<^verbatim>\<open>message\<close>, which no built-in prototype defines.
\<close>

fun get_prop :: "jsval \<Rightarrow> string \<Rightarrow> jsval + jsval" where
  "get_prop Undefined k =
     Inl (Exn ''TypeError'' (''Cannot read properties of undefined (reading '' @ k @ '')''))"
| "get_prop Null k =
     Inl (Exn ''TypeError'' (''Cannot read properties of null (reading '' @ k @ '')''))"
| "get_prop (Obj kvs) k = (case map_of kvs k of None \<Rightarrow> Inr Undefined | Some v \<Rightarrow> Inr v)"
| "get_prop (Exn name msg) k = (if k = ''message'' then Inr (Str msg) else Inr Undefined)"
| "get_prop v k = Inr Undefined"

text \<open>
  \<^verbatim>\<open>ToString\<close>, which \<^verbatim>\<open>localStorage.setItem\<close> applies to the value it stores. An array
  is joined with commas, a \<^verbatim>\<open>null\<close> or \<^verbatim>\<open>undefined\<close> element giving the empty string.
  An object parsed from JSON has no callable property: when it has a \<^verbatim>\<open>toString\<close> property
  of its own, the conversion finds no method that returns a primitive value and throws
  a \<^verbatim>\<open>TypeError\<close>; otherwise \<^verbatim>\<open>Object.prototype.toString\<close> answers.
\<close>

fun join :: "string list \<Rightarrow> string" where
  "join [] = []"
| "join [s] = s"
| "join (s # t # ss) = s @ '','' @ join (t # ss)"

fun ToString :: "jsval \<Rightarrow> jsval + string"
  and ToStrings :: "jsval list \<Rightarrow> jsval + string list" where
  "ToString Undefined = Inr ''undefined''"
| "ToString Null = Inr ''null''"
| "ToString (Bool b) = Inr (if b then ''true'' else ''false'')"
| "ToString (Num nonzero txt) = Inr txt"
| "ToString (Str s) = Inr s"
| "ToString (Arr vs) = (case ToStrings vs of Inl e \<Rightarrow> Inl e | Inr ss \<Rightarrow> Inr (join ss))"
| "ToString (Obj kvs) =
     (if map_of kvs ''toString'' = None then Inr ''[object Object]''
      else Inl (Exn ''TypeError'' ''Cannot convert object to primitive value''))"
| "ToString (Exn name msg) =
     Inr (if name = [] then msg else if msg = [] then name else name @ '': '' @ msg)"
| "ToStrings [] = Inr []"
| "ToStrings (v # vs) =
     (case (if v = Undefined \<or> v = Null then Inr [] else ToString v) of
        Inl e \<Rightarrow> Inl e
      | Inr s \<Rightarrow> (case ToStrings vs of Inl e \<Rightarrow> Inl e | Inr ss \<Rightarrow> Inr (s # ss)))"

section \<open>The component state and its reducer\<close>

text \<open>
  \<^verbatim>\<open>React.useReducer((s, a) => ({...s, ...a}), {resolved: false, loading: false, error: null})\<close>.
  An action is a partial state: the fields it has replace those of the state.
\<close>

record login_state =
  resolved :: bool
  loading :: bool
  error :: jsval

record action =
  set_resolved :: "bool option"
  set_loading :: "bool option"
  set_error :: "jsval option"

definition initial_state :: login_state where
  "initial_state = \<lparr>resolved = False, loading = False, error = Null\<rparr>"

definition reducer :: "login_state \<Rightarrow> action \<Rightarrow> login_state" where
  "reducer s a =
     \<lparr>resolved = (case set_resolved a of None \<Rightarrow> resolved s | Some v \<Rightarrow> v),
      loading = (case set_loading a of None \<Rightarrow> loading s | Some v \<Rightarrow> v),
      error = (case set_error a of None \<Rightarrow> error s | Some v \<Rightarrow> v)\<rparr>"

section \<open>The environment: network, storage, and the order of calls\<close>

text \<open>The second argument of \<^verbatim>\<open>fetch\<close> gives \<^verbatim>\<open>method\<close>, \<^verbatim>\<open>headers\<close> and \<^verbatim>\<open>body\<close>.\<close>

record request =
  url :: string
  http_method :: string
  headers :: "(string \<times> string) list"
  body :: string

text \<open>
  What the component does to the outside, in the order it does it. \<open>SetItem\<close> is the
  call of \<^verbatim>\<open>localStorage.setItem\<close>, whether the storage accepts the write or not.
  \<open>Uncaught\<close> is an exception that leaves a promise handler (an unhandled rejection).
\<close>

datatype effect =
    PreventDefault
  | SetState action
  | Fetch request
  | SetItem string string
  | Uncaught jsval

text \<open>
  The world of the component: its state, what the storage holds, whether the storage
  accepts a write at this moment (it refuses one when its quota is exceeded), the
  number of requests in flight, and the calls made so far.
\<close>

record world =
  state :: login_state
  storage :: "string \<rightharpoonup> string"
  accepting :: bool
  pending :: nat
  trace :: "effect list"

definition preventDefault :: "world \<Rightarrow> world" where
  "preventDefault w = w\<lparr>trace := trace w @ [PreventDefault]\<rparr>"

definition setState :: "action \<Rightarrow> world \<Rightarrow> world" where
  "setState a w = w\<lparr>state := reducer (state w) a, trace := trace w @ [SetState a]\<rparr>"

definition fetch :: "request \<Rightarrow> world \<Rightarrow> world" where
  "fetch r w = w\<lparr>pending := Suc (pending w), trace := trace w @ [Fetch r]\<rparr>"

text \<open>
  \<^verbatim>\<open>localStorage.setItem(k, v)\<close> stores the value, or throws a \<^verbatim>\<open>QuotaExceededError\<close> and
  leaves the storage as it was. The result is the exception thrown, if any, and the
  world after the call.
\<close>

definition setItem :: "string \<Rightarrow> string \<Rightarrow> world \<Rightarrow> jsval option \<times> world" where
  "setItem k v w =
     (let w1 = w\<lparr>trace := trace w @ [SetItem k v]\<rparr>
      in if accepting w then (None, w1\<lparr>storage := (storage w)(k \<mapsto> v)\<rparr>)
         else (Some (Exn ''QuotaExceededError'' ''The quota has been exceeded.''), w1))"

definition uncaught :: "jsval \<Rightarrow> world \<Rightarrow> world" where
  "uncaught e w = w\<lparr>trace := trace w @ [Uncaught e]\<rparr>"

section \<open>The submit handler\<close>

text \<open>
  \<^verbatim>\<open>JSON.stringify\<close> on a string: the quoted string, with the escapes of
  \<^verbatim>\<open>QuoteJSONString\<close> (the short escapes, and \<^verbatim>\<open>\u00xx\<close> for the other control
  characters).
\<close>

definition hex_digit :: "nat \<Rightarrow> char" where
  "hex_digit n = ''0123456789abcdef'' ! (n mod 16)"

definition quote_char :: "char \<Rightarrow> string" where
  "quote_char c =
     (if c = CHR 0x08 then [CHR 0x5C, CHR ''b'']
      else if c = CHR 0x09 then [CHR 0x5C, CHR ''t'']
      else if c = CHR 0x0A then [CHR 0x5C, CHR ''n'']
      else if c = CHR 0x0C then [CHR 0x5C, CHR ''f'']
      else if c = CHR 0x0D then [CHR 0x5C, CHR ''r'']
      else if c = CHR 0x22 then [CHR 0x5C, CHR 0x22]
      else if c = CHR 0x5C then [CHR 0x5C, CHR 0x5C]
      else if (of_char c :: nat) < 0x20
        then [CHR 0x5C, CHR ''u'', CHR ''0'', CHR ''0'',
              hex_digit (of_char c div 16), hex_digit (of_char c)]
      else [c])"

definition JSON_quote :: "string \<Rightarrow> string" where
  "JSON_quote s = CHR 0x22 # concat (map quote_char s) @ [CHR 0x22]"

text \<open>
  \<^verbatim>\<open>JSON.stringify\<close> on an object whose properties are strings, as the object literal
  \<^verbatim>\<open>{username: usernameInput.value, password: passwordInput.value}\<close> is: the value of an
  input element is always a string.
\<close>

definition JSON_stringify :: "(string \<times> string) list \<Rightarrow> string" where
  "JSON_stringify kvs =
     ''{'' @ join (map (\<lambda>(k, v). JSON_quote k @ '':'' @ JSON_quote v) kvs) @ ''}''"

text \<open>
  The submit event of the form: \<^verbatim>\<open>event.target.elements\<close> holds the two inputs the
  component renders, so the event is given by their values.
\<close>

record submit_event =
  usernameInput :: string
  passwordInput :: string

definition handleSubmit :: "submit_event \<Rightarrow> world \<Rightarrow> world" where
  "handleSubmit event w =
     (let w1 = preventDefault w;
          w2 = setState \<lparr>set_resolved = Some False, set_loading = Some True,
                          set_error = Some Null\<rparr> w1
      in fetch \<lparr>url = ''http://localhost:3000/api/login'',
                http_method = ''POST'',
                headers = [(''Content-Type'', ''application/json'')],
                body = JSON_stringify [(''username'', usernameInput event),
                                       (''password'', passwordInput event)]\<rparr> w2)"

text \<open>
  A settled promise is \<open>Inl\<close> of the reason it rejects with, or \<open>Inr\<close> of its value.
  A response has its \<^verbatim>\<open>ok\<close> flag and the promise \<^verbatim>\<open>r.json()\<close> returns: the parsed body,
  or the \<^verbatim>\<open>SyntaxError\<close> of a body that is not JSON.
\<close>

record response =
  ok :: bool
  json :: "jsval + jsval"

text \<open>\<^verbatim>\<open>r => r.json().then(data => (r.ok ? data : Promise.reject(data)))\<close>\<close>

definition then_json :: "response \<Rightarrow> jsval + jsval" where
  "then_json r =
     (case json r of
        Inl e \<Rightarrow> Inl e
      | Inr data \<Rightarrow> if ok r then Inr data else Inl data)"

text \<open>
  The two handlers of the last \<^verbatim>\<open>then\<close>. In the first, \<^verbatim>\<open>user.token\<close> is read, and
  converted to a string by \<^verbatim>\<open>setItem\<close>, after the state update; in the second,
  \<^verbatim>\<open>error.message\<close> is read to build the argument of \<^verbatim>\<open>setState\<close>, so before the state
  update. An exception in a handler is not caught: the second handler does not see
  what the first one throws, the exception of a refused write included.
\<close>

definition onFulfilled :: "jsval \<Rightarrow> world \<Rightarrow> world" where
  "onFulfilled user w =
     (let w1 = setState \<lparr>set_resolved = Some True, set_loading = Some False,
                          set_error = Some Null\<rparr> w
      in case get_prop user ''token'' of
           Inl e \<Rightarrow> uncaught e w1
         | Inr token \<Rightarrow>
             (case ToString token of
                Inl e \<Rightarrow> uncaught e w1
              | Inr s \<Rightarrow>
                  (case setItem ''token'' s w1 of
                     (None, w2) \<Rightarrow> w2
                   | (Some e, w2) \<Rightarrow> uncaught e w2)))"

definition onRejected :: "jsval \<Rightarrow> world \<Rightarrow> world" where
  "onRejected err w =
     (case get_prop err ''message'' of
        Inl e \<Rightarrow> uncaught e w
      | Inr message \<Rightarrow>
          setState \<lparr>set_resolved = Some False, set_loading = Some False,
                    set_error = Some message\<rparr> w)"

text \<open>
  The promise chain on the settled \<^verbatim>\<open>fetch\<close>: a rejected \<^verbatim>\<open>fetch\<close> (a network failure)
  passes the first \<^verbatim>\<open>then\<close>, which has no rejection handler.
\<close>

definition settle :: "jsval + response \<Rightarrow> world \<Rightarrow> world" where
  "settle res w =
     (case (case res of Inl e \<Rightarrow> Inl e | Inr r \<Rightarrow> then_json r) of
        Inl e \<Rightarrow> onRejected e w
      | Inr user \<Rightarrow> onFulfilled user w)"

section \<open>The component in its environment\<close>

text \<open>
  The component is mounted with its initial state, whatever the storage holds. Then
  the user submits the form, and the requests in flight settle, in any order: a request
  settles only once it has been issued. The handlers of a request do not refer to it,
  so a settled request is given by its result alone, and \<open>pending\<close> counts the requests
  in flight. The storage belongs to the origin, not to the component: at any moment it
  may fill up and refuse the writes, or accept them again (\<open>StorageAccepts\<close>). It
  accepts them at the mount, until an input says otherwise.
\<close>

definition mount :: "(string \<rightharpoonup> string) \<Rightarrow> world" where
  "mount st =
     \<lparr>state = initial_state, storage = st, accepting = True, pending = 0, trace = []\<rparr>"

datatype input = Submit submit_event | Settle "jsval + response" | StorageAccepts bool

fun step :: "input \<Rightarrow> world \<Rightarrow> world" where
  "step (Submit event) w = handleSubmit event w"
| "step (Settle res) w =
     (if pending w = 0 then w else settle res (w\<lparr>pending := pending w - 1\<rparr>))"
| "step (StorageAccepts b) w = w\<lparr>accepting := b\<rparr>"

fun run :: "input list \<Rightarrow> world \<Rightarrow> world" where
  "run [] w = w"
| "run (i # is) w = run is (step i w)"

text \<open>One submission, followed by the settling of a request in flight.\<close>

definition submit_flow :: "submit_event \<Rightarrow> jsval + response \<Rightarrow> world \<Rightarrow> world" where
  "submit_flow event res w = run [Submit event, Settle res] w"

section \<open>The rendered element\<close>

datatype jsx =
    Elem string "(string \<times> string) list" "jsx list"
  | Text string
  | Val jsval

definition Login :: "login_state \<Rightarrow> jsx" where
  "Login s =
     Elem ''div'' []
       [Elem ''form'' [(''onSubmit'', ''handleSubmit'')]
          [Elem ''div'' []
             [Elem ''label'' [(''htmlFor'', ''usernameInput'')] [Text ''Username''],
              Elem ''input'' [(''id'', ''usernameInput'')] []],
           Elem ''div'' []
             [Elem ''label'' [(''htmlFor'', ''passwordInput'')] [Text ''Password''],
              Elem ''input'' [(''id'', ''passwordInput''), (''type'', ''password'')] []],
           Elem ''button'' [(''type'', ''submit'')]
             [Text ''Submit'', Val (if loading s then Str ''...'' else Null)]],
        (if truthy (error s) then Elem ''div'' [(''role'', ''alert'')] [Val (error s)]
         else Val Null),
        (if resolved s then
           Elem ''div'' [(''role'', ''alert'')] [Text ''Congrats! You're signed in!'']
         else Val Null)]"

text \<open>The children of the elements with \<^verbatim>\<open>role="alert"\<close>, in document order.\<close>

fun alerts :: "jsx \<Rightarrow> jsx list list" where
  "alerts (Elem tag attrs children) =
     (if (''role'', ''alert'') \<in> set attrs then [children] else [])
     @ concat (map alerts children)"
| "alerts (Text s) = []"
| "alerts (Val v) = []"

section \<open>Observations\<close>

text \<open>The network requests and the storage keys of a trace, in order.\<close>

fun requests_of :: "effect list \<Rightarrow> request list" where
  "requests_of [] = []"
| "requests_of (Fetch r # es) = r # requests_of es"
| "requests_of (e # es) = requests_of es"

fun storage_keys :: "effect list \<Rightarrow> string list" where
  "storage_keys [] = []"
| "storage_keys (SetItem k v # es) = k # storage_keys es"
| "storage_keys (e # es) = storage_keys es"

fun submitted :: "input list \<Rightarrow> submit_event list" where
  "submitted [] = []"
| "submitted (Submit event # is) = event # submitted is"
| "submitted (Settle res # is) = submitted is"
| "submitted (StorageAccepts b # is) = submitted is"

text \<open>The inputs that reach the component: the submissions and the settled requests.\<close>

fun component_inputs :: "input list \<Rightarrow> input list" where
  "component_inputs [] = []"
| "component_inputs (StorageAccepts b # is) = component_inputs is"
| "component_inputs (i # is) = i # component_inputs is"

text \<open>
  The string that the first handler hands to \<^verbatim>\<open>setItem\<close> for a settled request, when it
  gets that far: the \<^verbatim>\<open>token\<close> property of the body of an ok response, as a string. The
  strings of the settled requests of a list of inputs, in order.
\<close>

definition response_token :: "jsval + response \<Rightarrow> string option" where
  "response_token res =
     (case res of
        Inl e \<Rightarrow> None
      | Inr r \<Rightarrow>
          (case then_json r of
             Inl e \<Rightarrow> None
           | Inr user \<Rightarrow>
               (case get_prop user ''token'' of
                  Inl e \<Rightarrow> None
                | Inr token \<Rightarrow> (case ToString token of Inl e \<Rightarrow> None | Inr s \<Rightarrow> Some s))))"

fun tokens_of :: "input list \<Rightarrow> string list" where
  "tokens_of [] = []"
| "tokens_of (Settle res # is) =
     (case response_token res of None \<Rightarrow> tokens_of is | Some s \<Rightarrow> s # tokens_of is)"
| "tokens_of (i # is) = tokens_of is"

text \<open>
  The three conditions of the view: the loading indicator, the success alert, the
  error. \<open>holding\<close> counts those that hold.
\<close>

definition conditions :: "login_state \<Rightarrow> bool list" where
  "conditions s = [loading s, resolved s, error s \<noteq> Null]"

definition holding :: "login_state \<Rightarrow> nat" where
  "holding s = length (filter id (conditions s))"

text \<open>
  The shape of every state the reducer is given: while loading nothing else holds,
  and a resolved state has no error.
\<close>

definition coherent :: "login_state \<Rightarrow> bool" where
  "coherent s =
     ((loading s \<longrightarrow> \<not> resolved s \<and> error s = Null) \<and> (resolved s \<longrightarrow> error s = Null))"

text \<open>
  Two worlds that differ at most in what the storage holds, and two worlds in which
  the component is the same: its state, its requests in flight and the requests it
  has issued (the storage may hold and accept what it will).
\<close>

definition same_component :: "world \<Rightarrow> world \<Rightarrow> bool" where
  "same_component w w' =
     (state w = state w' \<and> accepting w = accepting w' \<and> pending w = pending w' \<and>
      trace w = trace w')"

definition same_behaviour :: "world \<Rightarrow> world \<Rightarrow> bool" where
  "same_behaviour w w' =
     (state w = state w' \<and> pending w = pending w' \<and>
      requests_of (trace w) = requests_of (trace w'))"

section \<open>What the primitive calls and the handlers change\<close>

lemma requests_of_append: "requests_of (xs @ ys) = requests_of xs @ requests_of ys"
  by (induction xs rule: requests_of.induct) simp_all

lemma storage_keys_append: "storage_keys (xs @ ys) = storage_keys xs @ storage_keys ys"
  by (induction xs rule: storage_keys.induct) simp_all

lemma submitted_Cons: "submitted (i # is) = submitted [i] @ submitted is"
  by (cases i) simp_all

lemma handleSubmit_state:
  "state (handleSubmit event w) = \<lparr>resolved = False, loading = True, error = Null\<rparr>"
  by (simp add: handleSubmit_def Let_def fetch_def setState_def preventDefault_def reducer_def)

lemma handleSubmit_storage: "storage (handleSubmit event w) = storage w"
  by (simp add: handleSubmit_def Let_def fetch_def setState_def preventDefault_def)

lemma handleSubmit_pending: "pending (handleSubmit event w) = Suc (pending w)"
  by (simp add: handleSubmit_def Let_def fetch_def setState_def preventDefault_def)

lemma handleSubmit_trace:
  "trace (handleSubmit event w) =
     trace w @
     [PreventDefault,
      SetState \<lparr>set_resolved = Some False, set_loading = Some True, set_error = Some Null\<rparr>,
      Fetch \<lparr>url = ''http://localhost:3000/api/login'', http_method = ''POST'',
             headers = [(''Content-Type'', ''application/json'')],
             body = JSON_stringify [(''username'', usernameInput event),
                                    (''password'', passwordInput event)]\<rparr>]"
  by (simp add: handleSubmit_def Let_def fetch_def setState_def preventDefault_def)

lemma onFulfilled_state:
  "state (onFulfilled user w) = \<lparr>resolved = True, loading = False, error = Null\<rparr>"
  by (simp add: onFulfilled_def Let_def setState_def setItem_def uncaught_def reducer_def
      split: sum.splits)

lemma handleSubmit_accepting: "accepting (handleSubmit event w) = accepting w"
  by (simp add: handleSubmit_def Let_def fetch_def setState_def preventDefault_def)

lemma onFulfilled_storage:
  "storage (onFulfilled user w) =
     (case get_prop user ''token'' of
        Inl e \<Rightarrow> storage w
      | Inr token \<Rightarrow>
          (case ToString token of
             Inl e \<Rightarrow> storage w
           | Inr s \<Rightarrow> if accepting w then (storage w)(''token'' \<mapsto> s) else storage w))"
  by (simp add: onFulfilled_def Let_def setState_def setItem_def uncaught_def split: sum.splits)

lemma onRejected_state:
  "state (onRejected err w) =
     (case get_prop err ''message'' of
        Inl e \<Rightarrow> state w
      | Inr message \<Rightarrow> \<lparr>resolved = False, loading = False, error = message\<rparr>)"
  by (simp add: onRejected_def setState_def uncaught_def reducer_def split: sum.splits)

lemma onRejected_storage: "storage (onRejected err w) = storage w"
  by (simp add: onRejected_def setState_def uncaught_def split: sum.splits)


lemma settle_state_rejected:
  "json r = Inr data \<Longrightarrow> \<not> ok r \<Longrightarrow> state (settle (Inr r) w) = state (onRejected data w)"
  by (simp add: settle_def then_json_def)


lemma settle_state_shape:
  "state (settle res w) = state w \<or>
   state (settle res w) = \<lparr>resolved = True, loading = False, error = Null\<rparr> \<or>
   (\<exists>m. state (settle res w) = \<lparr>resolved = False, loading = False, error = m\<rparr>)"
  by (auto simp: settle_def then_json_def onFulfilled_state onRejected_state split: sum.splits)

lemma settle_storage_fulfilled:
  "json r = Inr data \<Longrightarrow> ok r \<Longrightarrow> storage (settle (Inr r) w) = storage (onFulfilled data w)"
  by (simp add: settle_def then_json_def)

lemma settle_storage_not_ok: "\<not> ok r \<Longrightarrow> storage (settle (Inr r) w) = storage w"
  by (simp add: settle_def then_json_def onRejected_storage split: sum.splits)

lemma settle_storage_no_response: "storage (settle (Inl e) w) = storage w"
  by (simp add: settle_def onRejected_storage)

lemma settle_storage_frame: "k \<noteq> ''token'' \<Longrightarrow> storage (settle res w) k = storage w k"
  by (simp add: settle_def then_json_def onFulfilled_storage onRejected_storage
      split: sum.splits)

lemma settle_pending: "pending (settle res w) = pending w"
  by (simp add: settle_def then_json_def onFulfilled_def onRejected_def Let_def setState_def
      setItem_def uncaught_def split: sum.splits)

lemma settle_requests: "requests_of (trace (settle res w)) = requests_of (trace w)"
  by (simp add: settle_def then_json_def onFulfilled_def onRejected_def Let_def setState_def
      setItem_def uncaught_def requests_of_append split: sum.splits)

lemma settle_storage_keys:
  "set (storage_keys (trace (settle res w))) \<subseteq> set (storage_keys (trace w)) \<union> {''token''}"
  by (auto simp: settle_def then_json_def onFulfilled_def onRejected_def Let_def setState_def
      setItem_def uncaught_def storage_keys_append split: sum.splits)

lemma submit_flow_settle:
  "submit_flow event res w = settle res ((handleSubmit event w)\<lparr>pending := pending w\<rparr>)"
  by (simp add: submit_flow_def handleSubmit_pending)

lemma alerts_Login:
  "alerts (Login s) =
     (if truthy (error s) then [[Val (error s)]] else []) @
     (if resolved s then [[Text ''Congrats! You're signed in!'']] else [])"
  by (simp add: Login_def)

section \<open>The outcomes of a submission\<close>




section \<open>The states the component reaches\<close>

lemma step_coherent: "coherent (state w) \<Longrightarrow> coherent (state (step i w))"
proof (cases i)
  case (Submit event)
  then show ?thesis by (simp add: handleSubmit_state coherent_def)
next
  case (Settle res)
  assume c: "coherent (state w)"
  show ?thesis
  proof (cases "pending w = 0")
    case True
    with Settle c show ?thesis by simp
  next
    case False
    let ?w = "w\<lparr>pending := pending w - 1\<rparr>"
    have "state ?w = state w" by simp
    with settle_state_shape [of res ?w] c have "coherent (state (settle res ?w))"
      by (auto simp: coherent_def)
    with Settle False show ?thesis by simp
  qed
next
  case (StorageAccepts b)
  assume "coherent (state w)"
  with StorageAccepts show ?thesis by simp
qed

lemma run_coherent: "coherent (state w) \<Longrightarrow> coherent (state (run ins w))"
  by (induction ins arbitrary: w) (simp_all add: step_coherent)

lemma mount_coherent: "coherent (state (mount st))"
  by (simp add: mount_def initial_state_def coherent_def)

lemma coherent_holding: "coherent s \<Longrightarrow> holding s \<le> 1"
  by (auto simp: coherent_def holding_def conditions_def)

lemma coherent_alerts:
  "coherent s \<Longrightarrow> length (alerts (Login s)) \<le> 1 \<and> (loading s \<longrightarrow> alerts (Login s) = [])"
  by (auto simp: coherent_def alerts_Login)

text \<open>
  Claim C2, as the code has it. In every state the component reaches from its mount, by
  any sequence of submissions and settled requests, at most one of the three conditions
  loading, resolved, error not null holds. So the rendered element has at most one
  alert, and none while loading.
\<close>

theorem at_most_one_condition:
  "holding (state (run ins (mount st))) \<le> 1 \<and>
   length (alerts (Login (state (run ins (mount st))))) \<le> 1 \<and>
   (loading (state (run ins (mount st))) \<longrightarrow> alerts (Login (state (run ins (mount st)))) = [])"
  using run_coherent [OF mount_coherent, of ins st] coherent_holding coherent_alerts by blast

theorem at_most_one_condition_witness:
  "loading (state (run [Submit \<lparr>usernameInput = ''chuck'', passwordInput = ''norris''\<rparr>]
      (mount Map.empty))) \<and>
   alerts (Login (state (run [Submit \<lparr>usernameInput = ''chuck'', passwordInput = ''norris''\<rparr>]
      (mount Map.empty)))) = [] \<and>
   holding (state (run [Submit \<lparr>usernameInput = ''chuck'', passwordInput = ''norris''\<rparr>]
      (mount Map.empty))) \<le> 1"
  using at_most_one_condition
    [of "[Submit \<lparr>usernameInput = ''chuck'', passwordInput = ''norris''\<rparr>]" Map.empty]
  by (simp add: handleSubmit_state)

text \<open>
  The claim as stated asks for exactly one condition. None holds in the initial state,
  before the first submission, and none holds after a failure whose body carries
  \<^verbatim>\<open>{"message": null}\<close>.
\<close>

theorem no_condition_holds:
  "holding (state (run [] (mount Map.empty))) = 0 \<and>
   holding (state (run
      [Submit \<lparr>usernameInput = ''chuck'', passwordInput = ''norris''\<rparr>,
       Settle (Inr \<lparr>ok = False, json = Inr (Obj [(''message'', Null)])\<rparr>)]
      (mount Map.empty))) = 0"
  by (simp add: holding_def conditions_def mount_def initial_state_def handleSubmit_pending
      settle_state_rejected onRejected_state)

section \<open>The alert of a failed submission\<close>




section \<open>The token of a successful submission\<close>




section \<open>The network requests\<close>

lemma step_requests:
  "requests_of (trace (step i w)) = requests_of (trace w) @
     map (\<lambda>event. \<lparr>url = ''http://localhost:3000/api/login'', http_method = ''POST'',
            headers = [(''Content-Type'', ''application/json'')],
            body = JSON_stringify [(''username'', usernameInput event),
                                   (''password'', passwordInput event)]\<rparr>) (submitted [i])"
  by (cases i) (simp_all add: handleSubmit_trace requests_of_append settle_requests)

lemma run_requests:
  "requests_of (trace (run ins w)) = requests_of (trace w) @
     map (\<lambda>event. \<lparr>url = ''http://localhost:3000/api/login'', http_method = ''POST'',
            headers = [(''Content-Type'', ''application/json'')],
            body = JSON_stringify [(''username'', usernameInput event),
                                   (''password'', passwordInput event)]\<rparr>) (submitted ins)"
proof (induction ins arbitrary: w)
  case Nil
  show ?case by simp
next
  case (Cons i ins)
  show ?case
    by (simp add: Cons.IH step_requests) (simp add: submitted_Cons [of i ins])
qed

text \<open>
  Claim C5. Whatever the user submits and whatever the requests in flight settle to,
  the network requests of the component are, in order, one per submission: a POST to
  \<^verbatim>\<open>http://localhost:3000/api/login\<close> with the header \<^verbatim>\<open>Content-Type: application/json\<close>,
  whose body is the JSON encoding of the username and the password of that submission.
  The endpoint is a constant.
\<close>

theorem every_request_fixed:
  "requests_of (trace (run ins (mount st))) =
     map (\<lambda>event. \<lparr>url = ''http://localhost:3000/api/login'', http_method = ''POST'',
            headers = [(''Content-Type'', ''application/json'')],
            body = JSON_stringify [(''username'', usernameInput event),
                                   (''password'', passwordInput event)]\<rparr>) (submitted ins)"
  by (simp add: run_requests) (simp add: mount_def)

text \<open>
  Claim C6. An invocation of the submit handler adds exactly one network request to
  those issued so far, and the promise handlers add none.
\<close>

theorem one_request_per_submit:
  "length (requests_of (trace (handleSubmit event w))) = Suc (length (requests_of (trace w))) \<and>
   length (requests_of (trace (settle res w))) = length (requests_of (trace w))"
  by (simp add: handleSubmit_trace requests_of_append settle_requests)

section \<open>The storage\<close>

lemma settle_accepting: "accepting (settle res w) = accepting w"
  by (simp add: settle_def then_json_def onFulfilled_def onRejected_def Let_def setState_def
      setItem_def uncaught_def split: sum.splits)

lemma settle_storage:
  "storage (settle res w) =
     (case response_token res of
        None \<Rightarrow> storage w
      | Some s \<Rightarrow> if accepting w then (storage w)(''token'' \<mapsto> s) else storage w)"
  by (simp add: settle_def response_token_def onFulfilled_storage onRejected_storage
      split: sum.splits)

lemma settle_writes_token:
  assumes "response_token res = Some s"
  shows "storage_keys (trace (settle res w)) = storage_keys (trace w) @ [''token'']"
proof -
  from assms obtain r user token where
    "res = Inr r" "then_json r = Inr user" "get_prop user ''token'' = Inr token"
    "ToString token = Inr s"
    by (auto simp: response_token_def split: sum.splits)
  then show ?thesis
    by (simp add: settle_def onFulfilled_def Let_def setState_def setItem_def uncaught_def
        storage_keys_append)
qed

lemma step_storage_keys:
  "set (storage_keys (trace (step i w))) \<subseteq> set (storage_keys (trace w)) \<union> {''token''}"
proof (cases i)
  case (Submit event)
  have "storage_keys (trace (handleSubmit event w)) = storage_keys (trace w)"
    by (simp add: handleSubmit_trace storage_keys_append)
  with Submit show ?thesis by auto
next
  case (Settle res)
  show ?thesis
  proof (cases "pending w = 0")
    case True
    with Settle have "step i w = w" by simp
    then show ?thesis by auto
  next
    case False
    with Settle have "step i w = settle res (w\<lparr>pending := pending w - 1\<rparr>)" by simp
    with settle_storage_keys [of res "w\<lparr>pending := pending w - 1\<rparr>"] show ?thesis by simp
  qed
next
  case (StorageAccepts b)
  then show ?thesis by auto
qed

lemma run_storage_keys:
  "set (storage_keys (trace (run ins w))) \<subseteq> set (storage_keys (trace w)) \<union> {''token''}"
proof (induction ins arbitrary: w)
  case Nil
  show ?case by auto
next
  case (Cons i ins)
  from Cons.IH [of "step i w"] step_storage_keys [of i w] show ?case by auto
qed

lemma step_storage_frame: "k \<noteq> ''token'' \<Longrightarrow> storage (step i w) k = storage w k"
  by (cases i) (simp_all add: handleSubmit_storage settle_storage_frame)

lemma run_storage_frame: "k \<noteq> ''token'' \<Longrightarrow> storage (run ins w) k = storage w k"
  by (induction ins arbitrary: w) (simp_all add: step_storage_frame)

lemma step_storage_token:
  "storage (step i w) ''token'' \<in> insert (storage w ''token'') (Some ` set (tokens_of [i]))"
proof (cases i)
  case (Submit event)
  then show ?thesis by (simp add: handleSubmit_storage)
next
  case (Settle res)
  then show ?thesis by (simp add: settle_storage split: option.splits)
next
  case (StorageAccepts b)
  then show ?thesis by simp
qed

lemma tokens_of_Cons: "set (tokens_of (i # is)) = set (tokens_of [i]) \<union> set (tokens_of is)"
  by (cases i) (simp_all split: option.splits)

lemma run_storage_token:
  "storage (run ins w) ''token'' \<in> insert (storage w ''token'') (Some ` set (tokens_of ins))"
proof (induction ins arbitrary: w)
  case Nil
  show ?case by simp
next
  case (Cons i ins)
  from Cons.IH [of "step i w"] step_storage_token [of i w] show ?case
    by (auto simp: tokens_of_Cons [of i ins])
qed

lemma handleSubmit_same_component:
  "same_component w w' \<Longrightarrow> same_component (handleSubmit event w) (handleSubmit event w')"
  by (simp add: same_component_def handleSubmit_state handleSubmit_pending handleSubmit_trace
      handleSubmit_accepting)

lemma settle_same_component:
  "same_component w w' \<Longrightarrow> same_component (settle res w) (settle res w')"
  by (simp add: same_component_def settle_def then_json_def onFulfilled_def onRejected_def Let_def
      setState_def setItem_def uncaught_def split: sum.splits)

lemma step_same_component: "same_component w w' \<Longrightarrow> same_component (step i w) (step i w')"
proof (cases i)
  case (Submit event)
  assume "same_component w w'"
  with Submit show ?thesis by (simp add: handleSubmit_same_component)
next
  case (Settle res)
  assume s: "same_component w w'"
  then have "same_component (w\<lparr>pending := pending w - 1\<rparr>) (w'\<lparr>pending := pending w' - 1\<rparr>)"
    by (simp add: same_component_def)
  then have "same_component (settle res (w\<lparr>pending := pending w - 1\<rparr>))
      (settle res (w'\<lparr>pending := pending w' - 1\<rparr>))"
    by (rule settle_same_component)
  with Settle s show ?thesis by (simp add: same_component_def)
next
  case (StorageAccepts b)
  assume "same_component w w'"
  with StorageAccepts show ?thesis by (simp add: same_component_def)
qed

lemma run_same_component: "same_component w w' \<Longrightarrow> same_component (run ins w) (run ins w')"
  by (induction ins arbitrary: w w') (simp_all add: step_same_component)

lemma settle_state_same: "state w = state w' \<Longrightarrow> state (settle res w) = state (settle res w')"
  by (simp add: settle_def then_json_def onFulfilled_state onRejected_state split: sum.splits)

lemma settle_same_behaviour:
  assumes "same_behaviour w w'"
  shows "same_behaviour (settle res w) (settle res w')"
proof -
  from assms have "state w = state w'"
    by (simp add: same_behaviour_def)
  then have "state (settle res w) = state (settle res w')"
    by (rule settle_state_same)
  with assms show ?thesis
    by (simp add: same_behaviour_def settle_pending settle_requests)
qed

lemma step_same_behaviour: "same_behaviour w w' \<Longrightarrow> same_behaviour (step i w) (step i w')"
proof (cases i)
  case (Submit event)
  assume "same_behaviour w w'"
  with Submit show ?thesis
    by (simp add: same_behaviour_def handleSubmit_state handleSubmit_pending handleSubmit_trace
        requests_of_append)
next
  case (Settle res)
  assume s: "same_behaviour w w'"
  then have "same_behaviour (w\<lparr>pending := pending w - 1\<rparr>) (w'\<lparr>pending := pending w' - 1\<rparr>)"
    by (simp add: same_behaviour_def)
  then have "same_behaviour (settle res (w\<lparr>pending := pending w - 1\<rparr>))
      (settle res (w'\<lparr>pending := pending w' - 1\<rparr>))"
    by (rule settle_same_behaviour)
  with Settle s show ?thesis by (simp add: same_behaviour_def)
next
  case (StorageAccepts b)
  assume "same_behaviour w w'"
  with StorageAccepts show ?thesis by (simp add: same_behaviour_def)
qed

lemma run_component_inputs:
  "same_behaviour w w' \<Longrightarrow> same_behaviour (run ins w) (run (component_inputs ins) w')"
proof (induction ins arbitrary: w w')
  case Nil
  then show ?case by simp
next
  case (Cons i ins)
  show ?case
  proof (cases i)
    case (Submit event)
    with Cons.IH [OF step_same_behaviour [OF Cons.prems, of i]] show ?thesis by simp
  next
    case (Settle res)
    with Cons.IH [OF step_same_behaviour [OF Cons.prems, of i]] show ?thesis by simp
  next
    case (StorageAccepts b)
    from Cons.prems have "same_behaviour (w\<lparr>accepting := b\<rparr>) w'"
      by (simp add: same_behaviour_def)
    from Cons.IH [OF this] StorageAccepts show ?thesis by simp
  qed
qed

lemma mount_same_behaviour: "same_behaviour (mount st') (mount st)"
  by (simp add: same_behaviour_def mount_def)

text \<open>
  Claim C7. Every call of the storage by the component targets the key \<^verbatim>\<open>token\<close>, and
  what the storage holds under any other key stays as it was. The key \<^verbatim>\<open>token\<close> is
  used: a submission whose ok response carries a token calls \<^verbatim>\<open>setItem\<close> on it. And
  nothing is read from the storage: the state of the component, its requests in
  flight and its calls, with their arguments, are the same whatever the storage held
  at the mount; its state and its network requests are the same, too, whether the
  storage accepts the writes or refuses them.
\<close>

theorem storage_only_token:
  "set (storage_keys (trace (run ins (mount st)))) \<subseteq> {''token''} \<and>
   (k \<noteq> ''token'' \<longrightarrow> storage (run ins (mount st)) k = st k) \<and>
   (response_token res = Some s \<longrightarrow>
      storage_keys (trace (submit_flow event res w)) = storage_keys (trace w) @ [''token'']) \<and>
   state (run ins (mount st')) = state (run ins (mount st)) \<and>
   pending (run ins (mount st')) = pending (run ins (mount st)) \<and>
   trace (run ins (mount st')) = trace (run ins (mount st)) \<and>
   state (run ins (mount st')) = state (run (component_inputs ins) (mount st)) \<and>
   requests_of (trace (run ins (mount st'))) =
     requests_of (trace (run (component_inputs ins) (mount st)))"
proof -
  have keys: "set (storage_keys (trace (run ins (mount st)))) \<subseteq> {''token''}"
    using run_storage_keys [of ins "mount st"] by (simp add: mount_def)
  have frame: "k \<noteq> ''token'' \<longrightarrow> storage (run ins (mount st)) k = st k"
    by (simp add: run_storage_frame) (simp add: mount_def)
  have used: "response_token res = Some s \<longrightarrow>
      storage_keys (trace (submit_flow event res w)) = storage_keys (trace w) @ [''token'']"
    by (simp add: submit_flow_settle settle_writes_token handleSubmit_trace storage_keys_append)
  have "same_component (mount st') (mount st)"
    by (simp add: same_component_def mount_def)
  then have "same_component (run ins (mount st')) (run ins (mount st))"
    by (rule run_same_component)
  then have same: "state (run ins (mount st')) = state (run ins (mount st)) \<and>
      pending (run ins (mount st')) = pending (run ins (mount st)) \<and>
      trace (run ins (mount st')) = trace (run ins (mount st))"
    by (simp add: same_component_def)
  have "same_behaviour (run ins (mount st')) (run (component_inputs ins) (mount st))"
    using mount_same_behaviour by (rule run_component_inputs)
  then have any: "state (run ins (mount st')) = state (run (component_inputs ins) (mount st)) \<and>
      requests_of (trace (run ins (mount st'))) =
        requests_of (trace (run (component_inputs ins) (mount st)))"
    by (simp add: same_behaviour_def)
  from same have s1: "state (run ins (mount st')) = state (run ins (mount st))"
    and s2: "pending (run ins (mount st')) = pending (run ins (mount st))"
    and s3: "trace (run ins (mount st')) = trace (run ins (mount st))"
    by simp_all
  from any have a1: "state (run ins (mount st')) = state (run (component_inputs ins) (mount st))"
    and a2: "requests_of (trace (run ins (mount st'))) =
      requests_of (trace (run (component_inputs ins) (mount st)))"
    by simp_all
  show ?thesis
    by (intro conjI) (fact keys, fact frame, fact used, fact s1, fact s2, fact s3, fact a1,
      fact a2)
qed

text \<open>
  A successful login with the storage holding a theme: the theme is still there, and
  the one key of the calls is \<^verbatim>\<open>token\<close>.
\<close>

theorem storage_only_token_witness:
  "''theme'' \<noteq> ''token'' \<and>
   response_token (Inr \<lparr>ok = True, json = Inr (Obj [(''token'', Str ''fake_user_token'')])\<rparr>) =
     Some ''fake_user_token'' \<and>
   storage (run [Submit \<lparr>usernameInput = ''chuck'', passwordInput = ''norris''\<rparr>,
                 Settle (Inr \<lparr>ok = True, json = Inr (Obj [(''token'', Str ''fake_user_token'')])\<rparr>)]
      (mount [''theme'' \<mapsto> ''dark''])) ''theme'' = Some ''dark'' \<and>
   storage_keys (trace (submit_flow \<lparr>usernameInput = ''chuck'', passwordInput = ''norris''\<rparr>
      (Inr \<lparr>ok = True, json = Inr (Obj [(''token'', Str ''fake_user_token'')])\<rparr>)
      (mount [''theme'' \<mapsto> ''dark'']))) = [''token'']"
proof -
  have tok: "response_token
      (Inr \<lparr>ok = True, json = Inr (Obj [(''token'', Str ''fake_user_token'')])\<rparr>) =
      Some ''fake_user_token''"
    by (simp add: response_token_def then_json_def)
  from tok storage_only_token
    [of "[Submit \<lparr>usernameInput = ''chuck'', passwordInput = ''norris''\<rparr>,
          Settle (Inr \<lparr>ok = True, json = Inr (Obj [(''token'', Str ''fake_user_token'')])\<rparr>)]"
      "[''theme'' \<mapsto> ''dark'']" "''theme''"
      "Inr \<lparr>ok = True, json = Inr (Obj [(''token'', Str ''fake_user_token'')])\<rparr>"
      "''fake_user_token''" "\<lparr>usernameInput = ''chuck'', passwordInput = ''norris''\<rparr>"
      "mount [''theme'' \<mapsto> ''dark'']"]
  show ?thesis by (simp add: mount_def)
qed

text \<open>
  Claim C8. The state of the component is its three fields: an update that gives the
  three of them gives the whole state. It starts as not resolved, not loading, no
  error, whatever the storage holds, and it is never restored: at every point it is
  the same whatever the storage held and whatever the storage accepts. It is never
  persisted: the submit handler leaves the storage as it was, a settled request
  changes it by the token of the response alone, and so the storage is at every point
  what it was at the mount but for the key \<^verbatim>\<open>token\<close>, which holds what it held at the
  mount or the token of a response.
\<close>

theorem state_ephemeral:
  "state (mount st) = \<lparr>resolved = False, loading = False, error = Null\<rparr> \<and>
   state (run ins (mount st')) = state (run (component_inputs ins) (mount st)) \<and>
   storage (handleSubmit event w) = storage w \<and>
   storage (settle res w) =
     (case response_token res of
        None \<Rightarrow> storage w
      | Some t \<Rightarrow> if accepting w then (storage w)(''token'' \<mapsto> t) else storage w) \<and>
   storage (run ins (mount st)) = st(''token'' := storage (run ins (mount st)) ''token'') \<and>
   storage (run ins (mount st)) ''token'' \<in> insert (st ''token'') (Some ` set (tokens_of ins)) \<and>
   reducer s \<lparr>set_resolved = Some a, set_loading = Some b, set_error = Some c\<rparr> =
     \<lparr>resolved = a, loading = b, error = c\<rparr>"
proof -
  have "same_behaviour (run ins (mount st')) (run (component_inputs ins) (mount st))"
    using mount_same_behaviour by (rule run_component_inputs)
  then have restored: "state (run ins (mount st')) = state (run (component_inputs ins) (mount st))"
    by (simp add: same_behaviour_def)
  have held: "storage (run ins (mount st)) ''token'' \<in>
      insert (st ''token'') (Some ` set (tokens_of ins))"
    using run_storage_token [of ins "mount st"] by (simp add: mount_def)
  have "\<And>k. storage (run ins (mount st)) k =
      (st(''token'' := storage (run ins (mount st)) ''token'')) k"
    by (simp add: run_storage_frame) (simp add: mount_def)
  then have rest: "storage (run ins (mount st)) =
      st(''token'' := storage (run ins (mount st)) ''token'')"
    by (rule ext)
  have start: "state (mount st) = \<lparr>resolved = False, loading = False, error = Null\<rparr>"
    by (simp add: mount_def initial_state_def)
  have full: "reducer s \<lparr>set_resolved = Some a, set_loading = Some b, set_error = Some c\<rparr> =
      \<lparr>resolved = a, loading = b, error = c\<rparr>"
    by (simp add: reducer_def)
  have submit: "storage (handleSubmit event w) = storage w"
    by (rule handleSubmit_storage)
  have settled: "storage (settle res w) =
      (case response_token res of
         None \<Rightarrow> storage w
       | Some t \<Rightarrow> if accepting w then (storage w)(''token'' \<mapsto> t) else storage w)"
    by (rule settle_storage)
  show ?thesis
    by (intro conjI) (fact start, fact restored, fact submit, fact settled, fact rest, fact held,
      fact full)
qed

text \<open>
  Claim C9. A submission whose response is not ok leaves the whole storage as it was,
  the key \<^verbatim>\<open>token\<close> included, and so does a submission whose request fails without a
  response: only the first handler writes.
\<close>

theorem failed_submission_keeps_storage:
  "(\<not> ok r \<longrightarrow> storage (submit_flow event (Inr r) w) = storage w) \<and>
   storage (submit_flow event (Inl e) w) = storage w"
  by (simp add: submit_flow_settle settle_storage_not_ok settle_storage_no_response
      handleSubmit_storage)

text \<open>A failed login after a successful one: the token of the first is still there.\<close>

theorem failed_submission_keeps_storage_witness:
  "storage (submit_flow \<lparr>usernameInput = ''chuck'', passwordInput = ''norris''\<rparr>
      (Inr \<lparr>ok = False, json = Inr (Obj [(''message'', Str ''Internal server error'')])\<rparr>)
      (submit_flow \<lparr>usernameInput = ''chuck'', passwordInput = ''norris''\<rparr>
         (Inr \<lparr>ok = True, json = Inr (Obj [(''token'', Str ''fake_user_token'')])\<rparr>)
         (mount Map.empty))) ''token'' = Some ''fake_user_token''"
  using failed_submission_keeps_storage
    [of "\<lparr>ok = False, json = Inr (Obj [(''message'', Str ''Internal server error'')])\<rparr>"
      "\<lparr>usernameInput = ''chuck'', passwordInput = ''norris''\<rparr>"
      "submit_flow \<lparr>usernameInput = ''chuck'', passwordInput = ''norris''\<rparr>
         (Inr \<lparr>ok = True, json = Inr (Obj [(''token'', Str ''fake_user_token'')])\<rparr>)
         (mount Map.empty)"]
  by (simp add: submit_flow_settle settle_storage_fulfilled onFulfilled_storage
      handleSubmit_accepting mount_def)

section \<open>The start of a submission\<close>

lemma run_submits_state:
  "state (run (map Submit events) (handleSubmit event w)) =
     \<lparr>resolved = False, loading = True, error = Null\<rparr>"
  by (induction events arbitrary: event w) (simp_all add: handleSubmit_state)

text \<open>
  Claim C10, as the code has it. An invocation of the submit handler first prevents the
  default submission of the form, then resets the state to loading, not resolved, no
  error, then issues the request. The rendered element has no alert then, and the
  state stays so through further submissions: until a promise handler runs.
\<close>

theorem handleSubmit_resets:
  "trace (handleSubmit event w) =
     trace w @
     [PreventDefault,
      SetState \<lparr>set_resolved = Some False, set_loading = Some True, set_error = Some Null\<rparr>,
      Fetch \<lparr>url = ''http://localhost:3000/api/login'', http_method = ''POST'',
             headers = [(''Content-Type'', ''application/json'')],
             body = JSON_stringify [(''username'', usernameInput event),
                                    (''password'', passwordInput event)]\<rparr>] \<and>
   state (handleSubmit event w) = \<lparr>resolved = False, loading = True, error = Null\<rparr> \<and>
   alerts (Login (state (handleSubmit event w))) = [] \<and>
   state (run (map Submit events) (handleSubmit event w)) =
     \<lparr>resolved = False, loading = True, error = Null\<rparr>"
  by (simp add: handleSubmit_trace handleSubmit_state alerts_Login run_submits_state)

text \<open>
  The claim as stated keeps the alerts of earlier submissions away for the duration of
  the new request. The handlers do not know which request they belong to: after two
  submissions, the failure of the first shows its alert while the second request is
  still in flight.
\<close>

theorem earlier_response_shows_alert:
  "pending (run [Submit \<lparr>usernameInput = ''chuck'', passwordInput = ''noris''\<rparr>,
                 Submit \<lparr>usernameInput = ''chuck'', passwordInput = ''norris''\<rparr>,
                 Settle (Inr \<lparr>ok = False, json = Inr (Obj [(''message'', Str ''Unauthorized'')])\<rparr>)]
      (mount Map.empty)) = 1 \<and>
   alerts (Login (state (run
      [Submit \<lparr>usernameInput = ''chuck'', passwordInput = ''noris''\<rparr>,
       Submit \<lparr>usernameInput = ''chuck'', passwordInput = ''norris''\<rparr>,
       Settle (Inr \<lparr>ok = False, json = Inr (Obj [(''message'', Str ''Unauthorized'')])\<rparr>)]
      (mount Map.empty)))) = [[Val (Str ''Unauthorized'')]]"
  by (simp add: handleSubmit_pending settle_pending settle_state_rejected onRejected_state
      alerts_Login mount_def)

end
